theory Spec2Isabelle
  imports Main
begin

section \<open>Data model of the music player\<close>

text \<open>
  The playback engine is the class \<open>AbstractMusicPlayer\<close> of
  \<^verbatim>\<open>music/abstract_music_player.py\<close>; the voice-channel gate is
  \<open>check_conditions\<close> of \<^verbatim>\<open>music/music_util.py\<close>. Python objects are
  records, every attribute the methods write is a field, and every method takes the
  player (\<open>self\<close>) and the invocation context (\<open>ctx\<close>) and returns them updated.
\<close>

type_synonym channel = nat

text \<open>
  Modelled from the spec: the class \<open>Entry\<close> (and \<open>YTDLSource\<close>) is imported by the
  player but is not among the sources. The spec gives an entry a \<open>source\<close> (a tagged
  variant, stream or file), a \<open>detail\<close> string and a \<open>requester\<close>.
\<close>

datatype source = YTDLSource | FileSource

record entry =
  source :: source
  detail :: string
  requester :: nat

text \<open>The exceptions the modelled code can raise.\<close>

datatype error = AttributeError | IndexError | QueueFull | Suspended

text \<open>
  \<open>Suspended\<close> is not a Python exception: it marks a \<open>finished.get()\<close> on an empty
  completion queue, where the coroutine would wait and not return.
\<close>

text \<open>
  \<open>discord.VoiceClient\<close>: the channel it is attached to and whether the audio sink is
  playing.
\<close>

record voice_client =
  vc_channel :: "channel option"
  vc_is_playing :: bool

text \<open>What a command does to the outside: messages sent and typing indicators.\<close>

datatype action = Send string | TriggerTyping

text \<open>
  The context \<open>ctx\<close>. \<open>author_voice\<close> is \<open>ctx.author.voice\<close>: \<open>None\<close> when the
  member has no voice state, otherwise the voice state, of which only the attribute
  \<open>channel\<close> (itself optional) is read. \<open>voice_client\<close> is \<open>ctx.voice_client\<close>.
  \<open>actions\<close> lists \<open>ctx.send\<close> and \<open>ctx.trigger_typing\<close> calls in order, and
  \<open>sink\<close> lists the entries handed to the audio sink by \<open>Entry.play\<close>, in order.
\<close>

record ctx =
  author_voice :: "channel option option"
  voice_client :: "voice_client option"
  actions :: "action list"
  sink :: "entry list"

text \<open>
  The player. \<open>entry_queue\<close> is the deque, head first; \<open>finished\<close> is the
  \<open>asyncio.Queue(1)\<close> of finished entries (its items are the values of
  \<open>self.current\<close>, so they may be \<open>None\<close>); \<open>logged\<close> are the warnings given to
  \<open>self.logger\<close>.
\<close>

record player =
  logged :: "string list"
  channel :: channel
  entry_queue :: "entry list"
  current :: "entry option"
  finished :: "entry option list"
  playing :: bool

type_synonym state = "player \<times> ctx"

section \<open>The player's methods\<close>

definition init :: "channel \<Rightarrow> player" where
  "init ch = \<lparr>logged = [], channel = ch, entry_queue = [], current = None,
              finished = [], playing = False\<rparr>"

text \<open>\<open>return self.current is None and not self.entry_queue\<close>\<close>

definition empty :: "player \<Rightarrow> bool" where
  "empty p = (current p = None \<and> entry_queue p = [])"

text \<open>
  \<open>__after(error)\<close>, the callback the audio sink calls when an entry ends. The warning
  is logged first; \<open>put_nowait\<close> raises \<open>QueueFull\<close> on a full queue of capacity 1,
  and then \<open>current\<close> is not cleared. The first component is the exception, if any.
\<close>

definition after :: "string option \<Rightarrow> player \<Rightarrow> error option \<times> player" where
  "after err p =
     (let p1 = (case err of None \<Rightarrow> p | Some m \<Rightarrow> p\<lparr>logged := logged p @ [m]\<rparr>)
      in if 1 \<le> length (finished p1) then (Some QueueFull, p1)
         else (None, p1\<lparr>finished := finished p1 @ [current p1], current := None\<rparr>))"

text \<open>\<open>return len(self.entry_queue) // 10 + 1\<close>\<close>

definition total_page :: "player \<Rightarrow> int" where
  "total_page p = int (length (entry_queue p)) div 10 + 1"

definition lst :: "player \<Rightarrow> entry list" where
  "lst p = entry_queue p"

text \<open>
  Python's slice \<open>xs[a:b]\<close> on a list: a negative bound counts from the end, and both
  bounds are clamped to the list.
\<close>

definition slice_bound :: "int \<Rightarrow> int \<Rightarrow> int" where
  "slice_bound n i = (if i < 0 then max (i + n) 0 else min i n)"

definition py_slice :: "'a list \<Rightarrow> int \<Rightarrow> int \<Rightarrow> 'a list" where
  "py_slice xs a b =
     (let n = int (length xs); lo = slice_bound n a; hi = slice_bound n b
      in take (nat (hi - lo)) (drop (nat lo) xs))"

text \<open>Python's \<open>str\<close> of an integer, for the f-string of \<open>playlist\<close>.\<close>

fun str_nat :: "nat \<Rightarrow> string" where
  "str_nat n = (if n < 10 then [char_of (48 + n)]
                else str_nat (n div 10) @ [char_of (48 + n mod 10)])"

declare str_nat.simps [simp del]

definition str_int :: "int \<Rightarrow> string" where
  "str_int i = (if i < 0 then CHR ''-'' # str_nat (nat (- i)) else str_nat (nat i))"

text \<open>
  Modelled from the spec: \<open>playlist_embed\<close> is imported from \<open>music.music_util\<close> but
  is not in the file under the sources. The spec has it render the current entry plus
  the section as a page, with the page number and the total number of pages; the embed
  is the tuple of these.
\<close>

datatype embed = Embed int int "entry option" "entry list"

definition playlist_embed :: "int \<Rightarrow> int \<Rightarrow> entry option \<Rightarrow> entry list \<Rightarrow> embed" where
  "playlist_embed page tot cur section = Embed page tot cur section"

definition send :: "string \<Rightarrow> ctx \<Rightarrow> ctx" where
  "send m c = c\<lparr>actions := actions c @ [Send m]\<rparr>"

text \<open>
  \<open>playlist(ctx, page)\<close>. An entry object is truthy, so \<open>not self.current\<close> is
  \<open>current = None\<close>. The result is the returned embed, if any, with the state.
\<close>

definition playlist :: "int \<Rightarrow> state \<Rightarrow> embed option \<times> state" where
  "playlist page s =
     (let p = fst s; c = snd s in
      if empty p then (None, (p, send ''Playlist is empty'' c))
      else
        let start = 10 * (page - 1);
            section = py_slice (lst p) start (start + 10)
        in if section = [] \<and> current p = None
           then (None, (p, send (''Page '' @ str_int page @ '' is not in the playlist.'') c))
           else (Some (playlist_embed page (total_page p) (current p) section), (p, c)))"

text \<open>
  \<open>stop(ctx, disconnect)\<close>. \<open>vc.stop()\<close> halts the sink; \<open>vc.disconnect()\<close>
  releases the connection, after which \<open>ctx.voice_client\<close> is \<open>None\<close>. The
  completion callback that a halted sink fires is a separate event (\<open>after\<close>).
\<close>

definition stop :: "bool \<Rightarrow> state \<Rightarrow> state" where
  "stop disconnect s =
     (let p = (fst s)\<lparr>current := None, entry_queue := []\<rparr>;
          c = snd s;
          vc = voice_client c;
          c1 = (case vc of None \<Rightarrow> c
                | Some v \<Rightarrow> c\<lparr>voice_client := Some (v\<lparr>vc_is_playing := False\<rparr>)\<rparr>);
          c2 = (if vc \<noteq> None \<and> disconnect then c1\<lparr>voice_client := None\<rparr> else c1)
      in (p, c2))"

text \<open>\<open>__play_next(ctx)\<close>: the flag returned says whether the loop goes on.\<close>

definition play_next :: "state \<Rightarrow> bool \<times> state" where
  "play_next s =
     (if empty (fst s) then (False, stop True ((fst s)\<lparr>playing := False\<rparr>, snd s))
      else (True, s))"

text \<open>
  Modelled from the spec: \<open>Entry.play(ctx, channel, after)\<close> is not among the sources.
  It hands the entry to the audio sink of the player's channel: the voice client is
  attached to that channel (connected if it was not) and is playing.
\<close>

definition entry_play :: "entry \<Rightarrow> channel \<Rightarrow> ctx \<Rightarrow> ctx" where
  "entry_play e ch c =
     c\<lparr>voice_client := Some \<lparr>vc_channel = Some ch, vc_is_playing = True\<rparr>,
       sink := sink c @ [e]\<rparr>"

text \<open>
  The body of the \<open>while True\<close> loop of \<open>__play\<close> up to \<open>await self.finished.get()\<close>:
  \<open>popleft\<close> raises \<open>IndexError\<close> on an empty deque.
\<close>

definition start_entry :: "state \<Rightarrow> error + state" where
  "start_entry s =
     (let p1 = (fst s)\<lparr>playing := True\<rparr>; c = snd s in
      case entry_queue p1 of
        [] \<Rightarrow> Inl IndexError
      | cur # q \<Rightarrow>
          let p2 = p1\<lparr>current := Some cur, entry_queue := q\<rparr>;
              c1 = (if source cur = YTDLSource
                    then c\<lparr>actions := actions c @ [TriggerTyping]\<rparr> else c);
              c2 = entry_play cur (channel p2) c1;
              c3 = send (''Now playing:'' @ detail cur) c2
          in Inr (p2, c3))"

text \<open>
  \<open>await self.finished.get()\<close>: takes the head of the completion queue, and waits
  when there is none.
\<close>

definition finished_get :: "player \<Rightarrow> error + player" where
  "finished_get p =
     (case finished p of [] \<Rightarrow> Inl Suspended | x # xs \<Rightarrow> Inr (p\<lparr>finished := xs\<rparr>))"

text \<open>
  The rest of the loop body, when the only event during the wait is the sink's
  completion callback for the entry (with the error \<open>err\<close>, if any): the callback runs,
  the loop takes the signal and asks \<open>__play_next\<close>. An exception of the callback
  stays in the sink's thread of control and does not reach the loop.
\<close>

definition resume :: "string option \<Rightarrow> state \<Rightarrow> error + bool \<times> state" where
  "resume err s =
     (let p1 = snd (after err (fst s)) in
      case finished_get p1 of
        Inl e \<Rightarrow> Inl e
      | Inr p2 \<Rightarrow> Inr (play_next (p2, snd s)))"

definition loop_body :: "(entry \<Rightarrow> string option) \<Rightarrow> state \<Rightarrow> error + bool \<times> state" where
  "loop_body outcome s =
     (case start_entry s of
        Inl e \<Rightarrow> Inl e
      | Inr s1 \<Rightarrow> resume (case current (fst s1) of None \<Rightarrow> None | Some e \<Rightarrow> outcome e) s1)"

text \<open>
  The \<open>while True\<close> loop of \<open>__play\<close>. \<open>outcome\<close> gives, for each entry, the error
  with which the sink ends it (\<open>None\<close> for a normal end).
\<close>

function play_loop :: "(entry \<Rightarrow> string option) \<Rightarrow> state \<Rightarrow> error + state" where
  "play_loop outcome s =
     (case loop_body outcome s of
        Inl e \<Rightarrow> Inl e
      | Inr r \<Rightarrow> if fst r then play_loop outcome (snd r) else Inr (snd r))"
  by pat_completeness auto
termination
proof (relation "measure (\<lambda>(outcome, s). length (entry_queue (fst s)))")
  show "wf (measure (\<lambda>(outcome, s). length (entry_queue (fst s))))"
    by simp
next
  fix outcome :: "entry \<Rightarrow> string option" and s :: state and r :: "bool \<times> state"
  assume body: "loop_body outcome s = Inr r" and cont: "fst r"
  obtain s' where r: "r = (True, s')"
    using cont by (cases r) auto
  have "length (entry_queue (fst s')) < length (entry_queue (fst s))"
    using body unfolding r
    by (auto simp: loop_body_def start_entry_def resume_def finished_get_def after_def
        play_next_def Let_def split: list.splits sum.splits if_splits option.splits)
  then show "((outcome, snd r), (outcome, s))
      \<in> measure (\<lambda>(outcome, s). length (entry_queue (fst s)))"
    by (simp add: r)
qed

declare play_loop.simps [simp del]

text \<open>\<open>__play(ctx)\<close>\<close>

definition play_private :: "(entry \<Rightarrow> string option) \<Rightarrow> state \<Rightarrow> error + state" where
  "play_private outcome s = (if empty (fst s) then Inr s else play_loop outcome s)"

text \<open>\<open>play(ctx)\<close>\<close>

definition play :: "(entry \<Rightarrow> string option) \<Rightarrow> state \<Rightarrow> error + state" where
  "play outcome s = (if playing (fst s) then Inr s else play_private outcome s)"

text \<open>
  Modelled from the spec: \<open>enqueue\<close> raises \<open>NotImplementedError\<close> in the abstract
  class and its overriding methods are not among the sources. The spec has it append
  the entry at the tail of the queue and nothing else.
\<close>

definition enqueue :: "entry \<Rightarrow> player \<Rightarrow> player" where
  "enqueue e p = p\<lparr>entry_queue := entry_queue p @ [e]\<rparr>"

section \<open>The voice-channel gate\<close>

text \<open>
  Modelled from the spec: the enumeration \<open>PlayingStatus\<close> of \<open>music.playing_status\<close>
  is not among the sources. Only its member \<open>NO\<close> (idle) is named; \<open>Active k\<close> stands
  for any other member.
\<close>

datatype playing_status = NO | Active nat

text \<open>
  Lines 25 to 28 of \<open>check_conditions\<close>: \<open>ctx.voice_client.channel\<close>, where the
  \<open>try\<close> turns the \<open>AttributeError\<close> of a missing voice client into \<open>None\<close>.
\<close>

definition ctx_ch :: "ctx \<Rightarrow> channel option" where
  "ctx_ch c = (case voice_client c of None \<Rightarrow> None | Some v \<Rightarrow> vc_channel v)"

text \<open>
  \<open>check_conditions(ctx, music_player)\<close>, with \<open>music_player.playing_status\<close> as
  \<open>status\<close>. Line 23 reads \<open>ctx.author.voice.channel\<close> outside the \<open>try\<close>: when
  \<open>ctx.author.voice\<close> is \<open>None\<close> the attribute access raises \<open>AttributeError\<close>.
  A channel object is truthy, so \<open>not ch\<close> is \<open>ch = None\<close>.
\<close>

definition check_conditions :: "ctx \<Rightarrow> playing_status \<Rightarrow> error + bool \<times> string option" where
  "check_conditions c status =
     (case author_voice c of
        None \<Rightarrow> Inl AttributeError
      | Some ch \<Rightarrow>
          if status = NO \<and> ch = None
          then Inr (False, Some ''You must be in a voice channel to use this command.'')
          else if status \<noteq> NO \<and> \<not> (ch = ctx_ch c \<or> ctx_ch c = None)
          then Inr (False,
                 Some (''You must be in the same voice'' @ ''channel as me to use this command.''))
          else Inr (True, None))"

section \<open>Concrete players and contexts\<close>

definition song :: "nat \<Rightarrow> entry" where
  "song k = \<lparr>source = FileSource, detail = ''song'', requester = k\<rparr>"

text \<open>A caller in voice channel 7, the bot not connected.\<close>

definition fresh_ctx :: ctx where
  "fresh_ctx = \<lparr>author_voice = Some (Some 7), voice_client = None, actions = [], sink = []\<rparr>"

text \<open>The same caller, the bot connected to channel 7 with a silent sink.\<close>

definition attached_ctx :: ctx where
  "attached_ctx = \<lparr>author_voice = Some (Some 7),
      voice_client = Some \<lparr>vc_channel = Some 7, vc_is_playing = False\<rparr>,
      actions = [], sink = []\<rparr>"

text \<open>A caller with no voice state at all: \<open>ctx.author.voice\<close> is \<open>None\<close>.\<close>

definition no_voice_ctx :: ctx where
  "no_voice_ctx = \<lparr>author_voice = None, voice_client = None, actions = [], sink = []\<rparr>"

text \<open>A caller whose voice state has no channel, the bot not connected.\<close>

definition no_channel_ctx :: ctx where
  "no_channel_ctx = \<lparr>author_voice = Some None, voice_client = None, actions = [], sink = []\<rparr>"

text \<open>
  The loop has taken the completion signal of the last entry: nothing queued, nothing
  current, \<open>playing\<close> still set, the bot connected.
\<close>

definition drained_state :: state where
  "drained_state = ((init 7)\<lparr>playing := True\<rparr>, attached_ctx)"

text \<open>
  The loop waits for the first of two enqueued songs to end (see
  \<open>suspended_state_reached\<close>).
\<close>

definition suspended_state :: state where
  "suspended_state =
     (\<lparr>logged = [], channel = 7, entry_queue = [song 1], current = Some (song 0),
       finished = [], playing = True\<rparr>,
      \<lparr>author_voice = Some (Some 7),
       voice_client = Some \<lparr>vc_channel = Some 7, vc_is_playing = True\<rparr>,
       actions = [Send ''Now playing:song''], sink = [song 0]\<rparr>)"

text \<open>Nine songs queued while a tenth is playing.\<close>

definition nine_and_current :: player where
  "nine_and_current = (init 7)\<lparr>entry_queue := map song [0..<9], current := Some (song 9)\<rparr>"

text \<open>Eleven songs queued, none playing.\<close>

definition eleven_queued :: player where
  "eleven_queued = (init 7)\<lparr>entry_queue := map song [0..<11]\<rparr>"

text \<open>Twelve songs queued while a thirteenth is playing.\<close>

definition twelve_and_current :: player where
  "twelve_and_current = (init 7)\<lparr>entry_queue := map song [0..<12], current := Some (song 12)\<rparr>"

text \<open>
  The slice as the specification words it: the window \<open>[a, b)\<close> of queue positions,
  that is the entries at the positions \<open>i\<close> of the queue with \<open>a \<le> i < b\<close>, in order.
  It is empty when no position of the queue lies in the window.
\<close>

definition window_slice :: "'a list \<Rightarrow> int \<Rightarrow> int \<Rightarrow> 'a list" where
  "window_slice xs a b =
     map (nth xs) (filter (\<lambda>i. a \<le> int i \<and> int i < b) [0..<length xs])"

text \<open>
  The count the specification's pagination property speaks of: the queue entries plus
  the currently playing entry if set.
\<close>

definition queued_plus_current :: "player \<Rightarrow> nat" where
  "queued_plus_current p =
     length (entry_queue p) + (case current p of None \<Rightarrow> 0 | Some e \<Rightarrow> 1)"

section \<open>Reaching the concrete states\<close>

lemma suspended_state_reached:
  "start_entry (enqueue (song 1) (enqueue (song 0) (init 7)), fresh_ctx) = Inr suspended_state"
  by (simp add: start_entry_def enqueue_def init_def fresh_ctx_def suspended_state_def
      song_def entry_play_def send_def)

lemma drained_state_reached:
  "resume None (fst suspended_state\<lparr>entry_queue := []\<rparr>, attached_ctx)
     = Inr (play_next drained_state)"
  by (simp add: resume_def after_def finished_get_def suspended_state_def drained_state_def
      init_def)

section \<open>The play loop\<close>

text \<open>
  One pass of the loop body from a state whose completion queue is free: the head of
  the queue goes to the sink, and the loop goes on exactly when entries remain.
\<close>

lemma loop_body_step:
  assumes "finished (fst s) = []" and "entry_queue (fst s) = e # q"
  shows "\<exists>s1. loop_body outcome s = Inr (q \<noteq> [], s1)
           \<and> sink (snd s1) = sink (snd s) @ [e]
           \<and> entry_queue (fst s1) = q
           \<and> finished (fst s1) = []
           \<and> current (fst s1) = None
           \<and> (q = [] \<longrightarrow> \<not> playing (fst s1))"
  using assms
  by (cases "outcome e")
     (auto simp: loop_body_def start_entry_def resume_def finished_get_def after_def
        play_next_def stop_def send_def entry_play_def empty_def Let_def)

lemma play_loop_fifo:
  "finished (fst s) = [] \<Longrightarrow> entry_queue (fst s) = es \<Longrightarrow> es \<noteq> [] \<Longrightarrow>
   \<exists>s'. play_loop outcome s = Inr s'
        \<and> sink (snd s') = sink (snd s) @ es
        \<and> entry_queue (fst s') = []
        \<and> current (fst s') = None
        \<and> \<not> playing (fst s')"
proof (induction es arbitrary: s)
  case Nil
  then show ?case by simp
next
  case (Cons e q)
  from loop_body_step [OF Cons.prems(1) Cons.prems(2), of outcome]
  obtain s1 where body: "loop_body outcome s = Inr (q \<noteq> [], s1)"
    and s1: "sink (snd s1) = sink (snd s) @ [e]" "entry_queue (fst s1) = q"
      "finished (fst s1) = []" "current (fst s1) = None" "q = [] \<longrightarrow> \<not> playing (fst s1)"
    by blast
  show ?case
  proof (cases "q = []")
    case True
    with body s1 show ?thesis
      by (subst play_loop.simps) simp
  next
    case False
    from Cons.IH [OF s1(3) s1(2) False]
    obtain s' where "play_loop outcome s1 = Inr s'"
      "sink (snd s') = sink (snd s1) @ q" "entry_queue (fst s') = []"
      "current (fst s') = None" "\<not> playing (fst s')"
      by blast
    with body s1 False show ?thesis
      by (subst play_loop.simps) simp
  qed
qed

lemma foldl_enqueue: "entry_queue (foldl (\<lambda>p e. enqueue e p) p es) = entry_queue p @ es"
  by (induction es arbitrary: p) (simp_all add: enqueue_def)

lemma foldl_enqueue_other:
  "finished (foldl (\<lambda>p e. enqueue e p) p es) = finished p"
  "current (foldl (\<lambda>p e. enqueue e p) p es) = current p"
  "playing (foldl (\<lambda>p e. enqueue e p) p es) = playing p"
  by (induction es arbitrary: p) (simp_all add: enqueue_def)

text \<open>
  Claim C4. On a new player, after the entries \<open>es\<close> have been enqueued in this order,
  \<open>play\<close> returns, the entries handed to the sink are exactly \<open>es\<close> in enqueue order
  (whatever error the sink reports for each), and the queue is empty afterwards. Each
  pass of the loop takes the head of the queue: after \<open>start_entry\<close> the current entry
  is the former head and the queue is the former tail.
\<close>

theorem play_fifo:
  "(\<exists>s'. play outcome (foldl (\<lambda>p e. enqueue e p) (init ch) es, c) = Inr s'
       \<and> sink (snd s') = sink c @ es
       \<and> entry_queue (fst s') = [])
   \<and> (start_entry s = Inr s1 \<longrightarrow>
        entry_queue (fst s) \<noteq> []
        \<and> current (fst s1) = Some (hd (entry_queue (fst s)))
        \<and> entry_queue (fst s1) = tl (entry_queue (fst s)))"
proof
  show "\<exists>s'. play outcome (foldl (\<lambda>p e. enqueue e p) (init ch) es, c) = Inr s'
       \<and> sink (snd s') = sink c @ es \<and> entry_queue (fst s') = []"
  proof (cases "es = []")
    case True
    then show ?thesis
      by (simp add: play_def play_private_def init_def empty_def)
  next
    case False
    let ?p = "foldl (\<lambda>p e. enqueue e p) (init ch) es"
    have q: "entry_queue ?p = es" and f: "finished ?p = []" and np: "\<not> playing ?p"
      by (simp_all add: foldl_enqueue foldl_enqueue_other init_def)
    from play_loop_fifo [of "(?p, c)" es outcome] q f False
    obtain s' where "play_loop outcome (?p, c) = Inr s'" "sink (snd s') = sink c @ es"
      "entry_queue (fst s') = []"
      by auto
    with q np False show ?thesis
      by (auto simp: play_def play_private_def empty_def)
  qed
next
  show "start_entry s = Inr s1 \<longrightarrow>
        entry_queue (fst s) \<noteq> []
        \<and> current (fst s1) = Some (hd (entry_queue (fst s)))
        \<and> entry_queue (fst s1) = tl (entry_queue (fst s))"
    by (auto simp: start_entry_def Let_def split: list.splits)
qed

theorem play_fifo_witness:
  "(\<exists>s'. play (\<lambda>e. None) (enqueue (song 1) (enqueue (song 0) (init 7)), fresh_ctx) = Inr s'
       \<and> sink (snd s') = [song 0, song 1]
       \<and> entry_queue (fst s') = [])
   \<and> start_entry (enqueue (song 1) (enqueue (song 0) (init 7)), fresh_ctx)
       = Inr suspended_state
   \<and> current (fst suspended_state) = Some (song 0)
   \<and> entry_queue (fst suspended_state) = [song 1]"
  using play_fifo [of "\<lambda>e. None" 7 "[song 0, song 1]" fresh_ctx
      "(enqueue (song 1) (enqueue (song 0) (init 7)), fresh_ctx)" suspended_state]
    suspended_state_reached
  by (simp add: fresh_ctx_def enqueue_def init_def)

text \<open>
  Claim C6. When \<open>playing\<close> is set, \<open>play\<close> returns without an exception and leaves
  the player and the context as they were: the queue, \<open>current\<close> and \<open>playing\<close> are
  unchanged, and nothing is sent or handed to the sink, so no second loop runs.
\<close>

theorem play_while_playing_is_noop:
  "playing (fst s) \<Longrightarrow> play outcome s = Inr s"
  by (simp add: play_def)

theorem play_while_playing_is_noop_witness:
  "playing (fst suspended_state) \<and> play (\<lambda>e. None) suspended_state = Inr suspended_state"
proof -
  have p: "playing (fst suspended_state)"
    by (simp add: suspended_state_def)
  from play_while_playing_is_noop [OF p, of "\<lambda>e. None"] p show ?thesis
    by simp
qed

text \<open>
  Claim C1, as stated: when the engine is empty as the loop resumes, \<open>__play_next\<close>
  stops without disconnecting. It fails on \<open>drained_state\<close>: the bot is connected
  there, \<open>__play_next\<close> calls \<open>stop(ctx, True)\<close> and the connection is released,
  where a stop with \<open>disconnect = False\<close> would keep it.
\<close>

theorem play_next_stop_without_disconnect_counterexample:
  "empty (fst drained_state)
   \<and> play_next drained_state
       \<noteq> (False, stop False ((fst drained_state)\<lparr>playing := False\<rparr>, snd drained_state))
   \<and> voice_client (snd (snd (play_next drained_state))) = None
   \<and> voice_client (snd (stop False ((fst drained_state)\<lparr>playing := False\<rparr>, snd drained_state)))
       \<noteq> None"
  by (simp add: drained_state_def attached_ctx_def init_def empty_def play_next_def stop_def)

text \<open>
  Claim C1, amended: when the engine is empty as the loop resumes, \<open>__play_next\<close> sets
  \<open>playing\<close> to false, performs a stop with \<open>disconnect = True\<close> (so that no voice
  client is left) and returns \<open>False\<close>, which exits the loop; when the engine is not
  empty it returns \<open>True\<close> and changes nothing.
\<close>

theorem play_next_stops_and_disconnects:
  "(empty (fst s) \<longrightarrow>
      play_next s = (False, stop True ((fst s)\<lparr>playing := False\<rparr>, snd s))
      \<and> \<not> playing (fst (snd (play_next s)))
      \<and> voice_client (snd (snd (play_next s))) = None)
   \<and> (\<not> empty (fst s) \<longrightarrow> play_next s = (True, s))"
  by (auto simp: play_next_def stop_def Let_def split: option.splits)

theorem play_next_stops_and_disconnects_witness:
  "empty (fst drained_state)
   \<and> play_next drained_state
       = (False, stop True ((fst drained_state)\<lparr>playing := False\<rparr>, snd drained_state))
   \<and> \<not> playing (fst (snd (play_next drained_state)))
   \<and> voice_client (snd (snd (play_next drained_state))) = None
   \<and> \<not> empty (fst suspended_state)
   \<and> play_next suspended_state = (True, suspended_state)"
proof -
  have e: "empty (fst drained_state)"
    by (simp add: drained_state_def init_def empty_def)
  have n: "\<not> empty (fst suspended_state)"
    by (simp add: suspended_state_def empty_def)
  show ?thesis
    using e n play_next_stops_and_disconnects [of drained_state]
      play_next_stops_and_disconnects [of suspended_state]
    by blast
qed

section \<open>Stopping\<close>




text \<open>
  Claim C5. In any state, \<open>stop(True)\<close> and \<open>stop(False)\<close> both leave the queue
  with length 0 and \<open>current\<close> unset, and leave the same player. The contexts they
  leave differ in the voice client only: after \<open>stop(True)\<close> there is none, after
  \<open>stop(False)\<close> there is one exactly when there was one before.
\<close>

theorem stop_differs_in_disconnect_only:
  "length (entry_queue (fst (stop True s))) = 0 \<and> current (fst (stop True s)) = None
   \<and> length (entry_queue (fst (stop False s))) = 0 \<and> current (fst (stop False s)) = None
   \<and> fst (stop True s) = fst (stop False s)
   \<and> snd (stop True s) = (snd (stop False s))\<lparr>voice_client := None\<rparr>
   \<and> voice_client (snd (stop True s)) = None
   \<and> (voice_client (snd (stop False s)) = None) = (voice_client (snd s) = None)"
  by (simp add: stop_def Let_def split: option.splits)

theorem stop_differs_in_disconnect_only_witness:
  "length (entry_queue (fst (stop True suspended_state))) = 0
   \<and> current (fst (stop True suspended_state)) = None
   \<and> length (entry_queue (fst (stop False suspended_state))) = 0
   \<and> current (fst (stop False suspended_state)) = None
   \<and> fst (stop True suspended_state) = fst (stop False suspended_state)
   \<and> voice_client (snd (stop True suspended_state)) = None
   \<and> voice_client (snd (stop False suspended_state))
       = Some \<lparr>vc_channel = Some 7, vc_is_playing = False\<rparr>"
  using stop_differs_in_disconnect_only [of suspended_state]
  by (simp add: suspended_state_def stop_def)

section \<open>Pagination\<close>

text \<open>
  Claim C7. In every state of the player, hence in every reachable one, \<open>empty\<close> is
  true if and only if \<open>current\<close> is unset and the queue has length zero.
\<close>

theorem empty_iff:
  "empty p = (current p = None \<and> length (entry_queue p) = 0)"
  by (simp add: empty_def)

theorem empty_iff_witness:
  "empty (init 7) \<and> \<not> empty (fst suspended_state) \<and> \<not> empty nine_and_current
   \<and> \<not> empty ((init 7)\<lparr>current := Some (song 0)\<rparr>)"
  using empty_iff [of "init 7"] empty_iff [of "fst suspended_state"]
    empty_iff [of nine_and_current] empty_iff [of "(init 7)\<lparr>current := Some (song 0)\<rparr>"]
  by (simp add: init_def suspended_state_def nine_and_current_def)

text \<open>
  Claim C2, as stated: with \<open>n\<close> the number of queued entries plus the current one,
  the total page count is \<open>n // 10 + 1\<close>. It fails with nine entries queued and one
  playing: \<open>n = 10\<close> gives 2, and \<open>total_page\<close> is 1.
\<close>

theorem total_page_counts_current_counterexample:
  "queued_plus_current nine_and_current = 10
   \<and> total_page nine_and_current = 1
   \<and> total_page nine_and_current \<noteq> int (queued_plus_current nine_and_current) div 10 + 1"
  by (simp add: nine_and_current_def queued_plus_current_def total_page_def init_def)

text \<open>
  Claim C2, amended: the total page count is \<open>m // 10 + 1\<close> for the number \<open>m\<close> of
  queued entries, the current entry not counted; this is the total that \<open>playlist\<close>
  gives to the rendered page. It equals \<open>n // 10 + 1\<close> for the queued-plus-current
  count \<open>n\<close> when no entry is current, and a queue of exactly \<open>10 * k\<close> entries has
  \<open>k + 1\<close> pages.
\<close>

theorem total_page_counts_queue:
  "total_page p = int (length (entry_queue p)) div 10 + 1
   \<and> (fst (playlist page (p, c)) = Some (Embed pg tot cur section)
        \<longrightarrow> tot = int (length (entry_queue p)) div 10 + 1)
   \<and> (current p = None \<longrightarrow> total_page p = int (queued_plus_current p) div 10 + 1)
   \<and> (length (entry_queue p) = 10 * k \<longrightarrow> total_page p = int k + 1)"
  by (auto simp: total_page_def playlist_def playlist_embed_def queued_plus_current_def
      Let_def split: if_splits)

theorem total_page_counts_queue_witness:
  "fst (playlist 1 (nine_and_current, fresh_ctx))
     = Some (Embed 1 1 (Some (song 9)) (map song [0..<9]))
   \<and> total_page nine_and_current = int (length (entry_queue nine_and_current)) div 10 + 1
   \<and> current (init 7) = None
   \<and> total_page (init 7) = int (queued_plus_current (init 7)) div 10 + 1
   \<and> length (entry_queue (init 7)) = 10 * 0
   \<and> total_page (init 7) = 1"
proof -
  have a: "fst (playlist 1 (nine_and_current, fresh_ctx))
     = Some (Embed 1 1 (Some (song 9)) (map song [0..<9]))"
    by (simp add: playlist_def nine_and_current_def init_def empty_def lst_def py_slice_def
        slice_bound_def playlist_embed_def total_page_def Let_def)
  have b: "current (init 7) = None" "length (entry_queue (init 7)) = 10 * 0"
    by (simp_all add: init_def)
  show ?thesis
    using a b
      total_page_counts_queue [of nine_and_current 1 fresh_ctx 1 1 "Some (song 9)"
        "map song [0..<9]" 0]
      total_page_counts_queue [of "init 7" 1 fresh_ctx 1 1 None "[]" 0]
    by simp
qed

text \<open>
  Python's slice against the window of positions. With both bounds from 0 on they are
  the same list.
\<close>

lemma filter_upt_window:
  "filter (\<lambda>i. l \<le> i \<and> i < h) [0..<n] = [l..<min h n]"
proof (induction n)
  case 0
  then show ?case by simp
next
  case (Suc n)
  show ?case
  proof (cases "l \<le> n \<and> n < h")
    case True
    then have "min h (Suc n) = Suc n" "min h n = n"
      by simp_all
    with Suc True show ?thesis
      by simp
  next
    case False
    then have "[l..<min h (Suc n)] = [l..<min h n]"
      by (auto simp: min_def)
    with Suc False show ?thesis
      by simp
  qed
qed

lemma take_drop_nth:
  "take k (drop j xs) = map (nth xs) [j..<min (j + k) (length xs)]"
proof -
  have "take k (drop j xs) = take k (drop j (map (nth xs) [0..<length xs]))"
    by (simp add: map_nth)
  also have "\<dots> = map (nth xs) (take k (drop j [0..<length xs]))"
    by (simp add: take_map drop_map)
  also have "take k (drop j [0..<length xs]) = [j..<min (j + k) (length xs)]"
    by (cases "j + k \<le> length xs") (auto simp: min_def)
  finally show ?thesis .
qed

lemma py_slice_window:
  assumes "0 \<le> a" and "0 \<le> b"
  shows "py_slice xs a b = window_slice xs a b"
proof -
  let ?n = "length xs"
  have f: "filter (\<lambda>i. a \<le> int i \<and> int i < b) [0..<?n]
        = filter (\<lambda>i. nat a \<le> i \<and> i < nat b) [0..<?n]"
    using assms by (intro filter_cong) auto
  have w: "window_slice xs a b = map (nth xs) [nat a..<min (nat b) ?n]"
    unfolding window_slice_def f filter_upt_window ..
  let ?lo = "min a (int ?n)" and ?hi = "min b (int ?n)"
  have p: "py_slice xs a b
      = map (nth xs) [nat ?lo..<min (nat ?lo + nat (?hi - ?lo)) ?n]"
    using assms by (simp add: py_slice_def slice_bound_def Let_def take_drop_nth)
  have "[nat ?lo..<min (nat ?lo + nat (?hi - ?lo)) ?n] = [nat a..<min (nat b) ?n]"
  proof (cases "a \<le> int ?n \<and> a \<le> b")
    case True
    with assms have "nat ?lo = nat a" "min (nat ?lo + nat (?hi - ?lo)) ?n = min (nat b) ?n"
      by (auto simp: min_def)
    then show ?thesis by simp
  next
    case False
    with assms have "min (nat ?lo + nat (?hi - ?lo)) ?n \<le> nat ?lo" "min (nat b) ?n \<le> nat a"
      by (auto simp: min_def)
    then show ?thesis by simp
  qed
  with w p show ?thesis by simp
qed

text \<open>No position of a queue lies in the window of a page number below 1.\<close>

lemma window_slice_nonpositive_page:
  "page \<le> 0 \<Longrightarrow> window_slice xs (10 * (page - 1)) (10 * (page - 1) + 10) = []"
  by (auto simp: window_slice_def filter_empty_conv)

text \<open>
  For every page number from 0 on, the slice that \<open>playlist\<close> takes is the window of
  positions \<open>[10 * (page - 1), 10 * (page - 1) + 10)\<close>.
\<close>

lemma py_slice_window_page:
  assumes "0 \<le> page"
  shows "py_slice xs (10 * (page - 1)) (10 * (page - 1) + 10)
           = window_slice xs (10 * (page - 1)) (10 * (page - 1) + 10)"
proof (cases "page = 0")
  case True
  with window_slice_nonpositive_page [of 0 xs] show ?thesis
    by (simp add: py_slice_def slice_bound_def Let_def)
next
  case False
  with assms have "0 \<le> 10 * (page - 1)" "0 \<le> 10 * (page - 1) + 10"
    by auto
  then show ?thesis
    by (rule py_slice_window)
qed

text \<open>
  For a page number below 0 both bounds of the slice are negative and Python counts
  them from the tail of the queue: the slice is empty when the queue has at most
  \<open>10 * |page|\<close> entries, and is a run of entries of the queue when it has more.
\<close>

lemma py_slice_negative_page_short:
  assumes "page < 0" and "int (length xs) \<le> 10 * (- page)"
  shows "py_slice xs (10 * (page - 1)) (10 * (page - 1) + 10) = []"
  using assms by (simp add: py_slice_def slice_bound_def Let_def)

lemma py_slice_negative_page_long:
  assumes "page < 0" and "10 * (- page) < int (length xs)"
  shows "py_slice xs (10 * (page - 1)) (10 * (page - 1) + 10) \<noteq> []"
  using assms by (auto simp: py_slice_def slice_bound_def Let_def max_def)

text \<open>\<open>playlist\<close> leaves the player as it was, for every page number.\<close>

lemma playlist_keeps_player: "fst (snd (playlist page s)) = fst s"
  by (simp add: playlist_def Let_def)

text \<open>
  For every page number from 0 on (zero and past-the-end values included),
  \<open>playlist\<close> has the three outcomes with the window of positions as the slice: the
  empty message and no page on an empty engine; the message that the page is not in the
  playlist and no page when the window is empty and no entry is current; otherwise the
  rendered page of the current entry and the window, nothing sent and the state
  unchanged.
\<close>

lemma playlist_nonnegative_page:
  assumes "0 \<le> page"
  shows "(empty (fst s) \<longrightarrow>
            playlist page s = (None, (fst s, send ''Playlist is empty'' (snd s))))
       \<and> (\<not> empty (fst s)
            \<and> window_slice (lst (fst s)) (10 * (page - 1)) (10 * (page - 1) + 10) = []
            \<and> current (fst s) = None \<longrightarrow>
          playlist page s
            = (None, (fst s,
                 send (''Page '' @ str_int page @ '' is not in the playlist.'') (snd s))))
       \<and> (\<not> empty (fst s)
            \<and> \<not> (window_slice (lst (fst s)) (10 * (page - 1)) (10 * (page - 1) + 10) = []
                 \<and> current (fst s) = None) \<longrightarrow>
          playlist page s
            = (Some (playlist_embed page (total_page (fst s)) (current (fst s))
                      (window_slice (lst (fst s)) (10 * (page - 1)) (10 * (page - 1) + 10))),
               s))"
  unfolding py_slice_window_page [OF assms, symmetric]
  by (auto simp: playlist_def Let_def)

text \<open>
  The specification's example: twelve entries queued and one current, page 2 is the
  entries at positions 10 and 11 with the current entry, of 2 pages.
\<close>

lemma playlist_second_page:
  "playlist 2 (twelve_and_current, fresh_ctx)
     = (Some (Embed 2 2 (Some (song 12)) [song 10, song 11]), (twelve_and_current, fresh_ctx))"
  by code_simp

text \<open>
  A page number below 0 is reported as not in the playlist when no entry is current and
  the queue has at most \<open>10 * |page|\<close> entries.
\<close>

lemma playlist_negative_page_short_queue:
  assumes "page < 0" and "int (length (lst (fst s))) \<le> 10 * (- page)"
    and "\<not> empty (fst s)" and "current (fst s) = None"
  shows "playlist page s
           = (None, (fst s,
                send (''Page '' @ str_int page @ '' is not in the playlist.'') (snd s)))"
  using assms(3,4) py_slice_negative_page_short [OF assms(1,2)]
  by (simp add: playlist_def Let_def)

text \<open>
  With more than \<open>10 * |page|\<close> entries queued, a page number below 0 is rendered,
  with a section that is not empty, though the window of positions is empty.
\<close>

lemma playlist_negative_page_long_queue:
  assumes "page < 0" and "10 * (- page) < int (length (lst (fst s)))"
  shows "window_slice (lst (fst s)) (10 * (page - 1)) (10 * (page - 1) + 10) = []
       \<and> playlist page s
           = (Some (playlist_embed page (total_page (fst s)) (current (fst s))
                     (py_slice (lst (fst s)) (10 * (page - 1)) (10 * (page - 1) + 10))), s)
       \<and> py_slice (lst (fst s)) (10 * (page - 1)) (10 * (page - 1) + 10) \<noteq> []"
proof -
  have ne: "py_slice (lst (fst s)) (10 * (page - 1)) (10 * (page - 1) + 10) \<noteq> []"
    using assms by (rule py_slice_negative_page_long)
  have "lst (fst s) \<noteq> []"
    using assms by auto
  then have "\<not> empty (fst s)"
    by (simp add: empty_def lst_def)
  with ne have "playlist page s
           = (Some (playlist_embed page (total_page (fst s)) (current (fst s))
                     (py_slice (lst (fst s)) (10 * (page - 1)) (10 * (page - 1) + 10))), s)"
    by (simp add: playlist_def Let_def)
  moreover have "window_slice (lst (fst s)) (10 * (page - 1)) (10 * (page - 1) + 10) = []"
    using assms(1) by (intro window_slice_nonpositive_page) simp
  ultimately show ?thesis
    using ne by simp
qed

text \<open>
  Claim C8: for every page number, negative ones included, \<open>playlist\<close> reports that
  the page is not in the playlist when the requested slice
  \<open>[10 * (page - 1), 10 * (page - 1) + 10)\<close> is empty and no entry is current. The code
  does not do this for page -1 of eleven queued entries with none current: no position
  of the queue lies in the window \<open>[-20, -10)\<close>, and \<open>playlist\<close> returns a page,
  numbered -1 of 2, that holds the first entry of the queue.
\<close>

theorem playlist_negative_page_renders:
  "\<not> empty eleven_queued
   \<and> current eleven_queued = None
   \<and> window_slice (lst eleven_queued) (10 * (- 1 - 1)) (10 * (- 1 - 1) + 10) = []
   \<and> playlist (- 1) (eleven_queued, fresh_ctx)
       = (Some (Embed (- 1) 2 None [song 0]), (eleven_queued, fresh_ctx))"
proof -
  have "window_slice (lst eleven_queued) (10 * (- 1 - 1)) (10 * (- 1 - 1) + 10) = []"
    by (rule window_slice_nonpositive_page) simp
  moreover have "playlist (- 1) (eleven_queued, fresh_ctx)
       = (Some (Embed (- 1) 2 None [song 0]), (eleven_queued, fresh_ctx))"
    by (simp add: playlist_def eleven_queued_def init_def empty_def lst_def py_slice_def
        slice_bound_def playlist_embed_def total_page_def Let_def upt_rec)
  moreover have "\<not> empty eleven_queued" "current eleven_queued = None"
    by (simp_all add: eleven_queued_def init_def empty_def)
  ultimately show ?thesis
    by blast
qed

section \<open>The voice-channel gate\<close>

text \<open>
  When the caller has a voice state without a channel and the engine is idle, the gate
  rejects with the message.
\<close>

lemma check_conditions_no_channel:
  "author_voice c = Some None \<Longrightarrow>
   check_conditions c NO
     = Inr (False, Some ''You must be in a voice channel to use this command.'')"
  by (simp add: check_conditions_def)

text \<open>
  Claim C9: with the engine idle and the caller in no voice channel, the gate returns
  the rejection with the must-join message and does not raise. The code does not do
  this for a caller that has no voice state: \<open>ctx.author.voice\<close> is \<open>None\<close>, and
  line 23 raises \<open>AttributeError\<close> before the status is looked at.
\<close>

theorem check_conditions_no_voice_raises:
  "check_conditions no_voice_ctx NO = Inl AttributeError"
  by (simp add: check_conditions_def no_voice_ctx_def)

text \<open>
  Claim C10. When the caller's voice state is readable, the status is not \<open>NO\<close> and
  no attached channel is recorded (no voice client, or a voice client without a
  channel), the gate allows, with no message, whatever channel the caller is in.
\<close>

theorem check_conditions_unattached_allows:
  "author_voice c = Some ch \<Longrightarrow> status \<noteq> NO \<Longrightarrow> ctx_ch c = None \<Longrightarrow>
   check_conditions c status = Inr (True, None)"
  by (simp add: check_conditions_def)

theorem check_conditions_unattached_allows_witness:
  "author_voice no_channel_ctx = Some None \<and> ctx_ch no_channel_ctx = None
   \<and> check_conditions no_channel_ctx (Active 0) = Inr (True, None)
   \<and> author_voice fresh_ctx = Some (Some 7) \<and> ctx_ch fresh_ctx = None
   \<and> check_conditions fresh_ctx (Active 1) = Inr (True, None)"
proof -
  have a: "author_voice no_channel_ctx = Some None" "ctx_ch no_channel_ctx = None"
    by (simp_all add: no_channel_ctx_def ctx_ch_def)
  have b: "author_voice fresh_ctx = Some (Some 7)" "ctx_ch fresh_ctx = None"
    by (simp_all add: fresh_ctx_def ctx_ch_def)
  have n: "Active 0 \<noteq> NO" "Active 1 \<noteq> NO"
    by simp_all
  show ?thesis
    using a b check_conditions_unattached_allows [OF a(1) n(1) a(2)]
      check_conditions_unattached_allows [OF b(1) n(2) b(2)]
    by simp
qed

end
